theory Spec2Isabelle
  imports Main
begin

section \<open>CoreQuery: the plugins added to the matched set (core\_query.js)\<close>

text \<open>
  The matched set of a CoreQuery object is an array of DOM nodes. A node is an address
  into the document; the document maps it to the properties the plugins read and write:
  \<^verbatim>\<open>nodeType\<close>, \<^verbatim>\<open>className\<close> and \<^verbatim>\<open>type\<close> (absent on most nodes, hence
  an option). The \<^verbatim>\<open>className\<close> of an HTML element is a string; that of other
  element nodes need not be (an SVG element's is an object without \<^verbatim>\<open>split\<close>). An
  entry of a matched set may be \<^verbatim>\<open>undefined\<close> (\<^verbatim>\<open>first()\<close> on an empty set
  pushes \<^verbatim>\<open>[this[0]]\<close>), so an entry is a \<open>node option\<close>.
  Strings are restricted to code units below 256.
\<close>

type_synonym node = nat

datatype class_value = ClassText string | NotAString

record element =
  nodeType :: nat
  className :: class_value
  type_prop :: "string option"

type_synonym document = "node \<Rightarrow> element"

type_synonym matched = "node option list"

datatype js_error = TypeError

subsection \<open>\<^verbatim>\<open>String.prototype.split(/\s+/)\<close>, \<^verbatim>\<open>indexOf\<close> and \<^verbatim>\<open>join(' ')\<close>\<close>

text \<open>The class \<^verbatim>\<open>\s\<close> on code units below 256: TAB, LF, VT, FF, CR, SP and NBSP.\<close>

definition is_space :: "char \<Rightarrow> bool" where
  "is_space c = (c = CHR 0x09 \<or> c = CHR 0x0A \<or> c = CHR 0x0B \<or> c = CHR 0x0C \<or>
     c = CHR 0x0D \<or> c = CHR '' '' \<or> c = CHR 0xA0)"

definition not_space :: "char \<Rightarrow> bool" where
  "not_space c = (\<not> is_space c)"

text \<open>
  \<^verbatim>\<open>s.split(/\s+/)\<close>: the text before the next run of white space is a piece, the
  whole run is the separator, and what is left after the last run is the last piece;
  so a leading or a trailing run gives an empty piece, and the empty string gives
  \<^verbatim>\<open>[""]\<close>.
\<close>

function split_ws :: "string \<Rightarrow> string list" where
  "split_ws s =
     (let w = takeWhile not_space s;
          r = dropWhile not_space s
      in if r = [] then [w] else w # split_ws (dropWhile is_space r))"
  by pat_completeness auto
termination
proof (relation "measure length")
  fix s w r :: string
  assume r: "r = dropWhile not_space s" and ne: "r \<noteq> []"
  from r ne have "is_space (hd r)"
    using hd_dropWhile [of not_space s] by (simp add: not_space_def)
  with ne have "length (dropWhile is_space r) < length r"
    by (cases r) (auto simp: le_imp_less_Suc length_dropWhile_le)
  also have "length r \<le> length s"
    unfolding r by (rule length_dropWhile_le)
  finally show "(dropWhile is_space r, s) \<in> measure length"
    by simp
qed simp

declare split_ws.simps [simp del]

text \<open>\<^verbatim>\<open>Array.prototype.indexOf\<close>: the first index holding the value, or \<open>-1\<close>.\<close>

fun indexOf :: "'a list \<Rightarrow> 'a \<Rightarrow> int" where
  "indexOf [] x = - 1"
| "indexOf (y # ys) x =
     (if y = x then 0 else (let i = indexOf ys x in if i < 0 then - 1 else i + 1))"

text \<open>
  \<^verbatim>\<open>Array.prototype.join\<close>: a \<^verbatim>\<open>null\<close> entry (here \<open>None\<close>) is written as the
  empty string.
\<close>

fun entry_text :: "string option \<Rightarrow> string" where
  "entry_text None = []"
| "entry_text (Some s) = s"

fun join :: "string \<Rightarrow> string option list \<Rightarrow> string" where
  "join sep [] = []"
| "join sep [x] = entry_text x"
| "join sep (x # y # ys) = entry_text x @ sep @ join sep (y # ys)"

subsection \<open>\<^verbatim>\<open>setClass\<close> and \<^verbatim>\<open>_fixupClass\<close>\<close>

text \<open>
  \<^verbatim>\<open>_fixupClass(classNames, name, shouldAdd)\<close> mutates the array and returns whether it
  did; the model returns the flag and the new array.
\<close>

definition fixupClass :: "string option list \<Rightarrow> string \<Rightarrow> bool \<Rightarrow> bool \<times> string option list" where
  "fixupClass classNames name shouldAdd =
     (let indexOf = indexOf classNames (Some name) in
      if shouldAdd then
        (if indexOf < 0 then (True, classNames @ [Some name]) else (False, classNames))
      else if indexOf \<ge> 0 then (True, classNames[nat indexOf := None])
      else (False, classNames))"

text \<open>
  The first argument of \<^verbatim>\<open>setClass\<close>: \<^verbatim>\<open>null\<close> or \<^verbatim>\<open>undefined\<close>, a string, or
  anything else, which is read as a hash: the properties a \<^verbatim>\<open>for..in\<close> loop visits,
  in its order, each with whether it is an own property and with the truth of its value.
\<close>

datatype class_arg = NoClass | ClassName string | ClassHash "(string \<times> bool \<times> bool) list"

text \<open>The loop over the hash: \<^verbatim>\<open>didChange = fix(classNames, key, className[key]) || didChange\<close>.\<close>

fun fixupHash :: "(string \<times> bool \<times> bool) list \<Rightarrow> string option list \<Rightarrow> bool
    \<Rightarrow> bool \<times> string option list" where
  "fixupHash [] classNames didChange = (didChange, classNames)"
| "fixupHash ((key, own, v) # rest) classNames didChange =
     (if \<not> own then fixupHash rest classNames didChange
      else (let (c, classNames') = fixupClass classNames key v
            in fixupHash rest classNames' (c \<or> didChange)))"

text \<open>
  The callback of \<^verbatim>\<open>this.each\<close>, on one node of the set. Only \<^verbatim>\<open>nodeType\<close> is
  tested before \<^verbatim>\<open>this.className.split\<close> is called, which raises when the
  \<^verbatim>\<open>className\<close> is not a string.
\<close>

definition setClass_each :: "class_arg \<Rightarrow> bool \<Rightarrow> element \<Rightarrow> js_error + element" where
  "setClass_each arg shouldAdd this =
     (if nodeType this \<noteq> 1 then Inr this
      else
        (case className this of
           NotAString \<Rightarrow> Inl TypeError
         | ClassText cls \<Rightarrow>
             (let classNames = map Some (split_ws cls);
                  (didChange, classNames') =
                    (case arg of
                       ClassHash h \<Rightarrow> fixupHash h classNames False
                     | ClassName name \<Rightarrow> fixupClass classNames name shouldAdd
                     | NoClass \<Rightarrow> (False, classNames))
              in Inr (if didChange then this\<lparr>className := ClassText (join '' '' classNames')\<rparr>
                      else this))))"

text \<open>
  jQuery's \<^verbatim>\<open>each\<close> with a callback that writes to its \<^verbatim>\<open>this\<close>: the callback is
  called on every entry in order. On an \<^verbatim>\<open>undefined\<close> entry the callback's
  \<^verbatim>\<open>this\<close> is the global object, whose \<^verbatim>\<open>nodeType\<close> is not 1: nothing is done.
  When the callback raises, the loop ends there: the result is the document as the
  earlier entries left it, with the error.
\<close>

fun each :: "(element \<Rightarrow> js_error + element) \<Rightarrow> matched \<Rightarrow> document
    \<Rightarrow> document \<times> js_error option" where
  "each callback [] doc = (doc, None)"
| "each callback (None # rest) doc = each callback rest doc"
| "each callback (Some n # rest) doc =
     (case callback (doc n) of
        Inl e \<Rightarrow> (doc, Some e)
      | Inr this \<Rightarrow> each callback rest (doc(n := this)))"

text \<open>
  \<^verbatim>\<open>setClass(className, shouldAdd)\<close> returns the receiver or raises; its effect is on
  the document.
\<close>

definition setClass :: "class_arg \<Rightarrow> bool \<Rightarrow> matched \<Rightarrow> document
    \<Rightarrow> document \<times> js_error option" where
  "setClass arg shouldAdd this doc =
     (case arg of
        NoClass \<Rightarrow> (doc, None)
      | _ \<Rightarrow> each (setClass_each arg shouldAdd) this doc)"

subsection \<open>\<^verbatim>\<open>isVisible\<close>\<close>

text \<open>
  \<^verbatim>\<open>SC.$.isVisible(elem)\<close>. \<^verbatim>\<open>CQ.css\<close> is jQuery's: it is a parameter, from a node and
  a style name to the computed value, if any.
\<close>

definition isVisible_elem :: "(node \<Rightarrow> string \<Rightarrow> string option) \<Rightarrow> document \<Rightarrow> node \<Rightarrow> bool" where
  "isVisible_elem css doc elem =
     (Some ''hidden'' \<noteq> type_prop (doc elem) \<and> css elem ''display'' \<noteq> Some ''none''
      \<and> css elem ''visibility'' \<noteq> Some ''hidden'')"

text \<open>
  \<^verbatim>\<open>Array.prototype.every\<close>, with a callback that may raise: it stops at the first
  entry the callback rejects or raises on.
\<close>

fun every :: "('a \<Rightarrow> js_error + bool) \<Rightarrow> 'a list \<Rightarrow> js_error + bool" where
  "every f [] = Inr True"
| "every f (x # xs) =
     (case f x of Inl e \<Rightarrow> Inl e | Inr b \<Rightarrow> if b then every f xs else Inr False)"

text \<open>
  \<^verbatim>\<open>isVisible()\<close> on a matched set. Reading \<^verbatim>\<open>elem.type\<close> on an \<^verbatim>\<open>undefined\<close>
  entry raises.
\<close>

definition isVisible :: "(node \<Rightarrow> string \<Rightarrow> string option) \<Rightarrow> document \<Rightarrow> matched
    \<Rightarrow> js_error + bool" where
  "isVisible css doc this =
     every (\<lambda>entry. case entry of
              None \<Rightarrow> Inl TypeError
            | Some elem \<Rightarrow> Inr (isVisible_elem css doc elem)) this"

subsection \<open>Making CoreQuery enumerable\<close>

text \<open>
  \<^verbatim>\<open>SC.CoreQuery = jQuery.noConflict(); SC.$ = SC.CoreQuery;\<close> and then
  \<^verbatim>\<open>var fn = SC.$.fn\<close>: no object is created, so \<open>fn\<close> is the prototype object of
  the library that \<^verbatim>\<open>jQuery.noConflict()\<close> hands back. An object is the table of its
  own properties; a property may hold \<^verbatim>\<open>undefined\<close>, one of the wrapper functions of
  the file, or a value from outside the file (a method of jQuery or of
  \<^verbatim>\<open>SC.Enumerable\<close>).
\<close>

datatype 'v jsval = Undef | Wrapper string | Ext 'v

type_synonym 'v props = "string \<rightharpoonup> 'v jsval"

text \<open>
  \<^verbatim>\<open>obj[key]\<close> and \<^verbatim>\<open>key in obj\<close> for an object whose prototype is
  \<^verbatim>\<open>Object.prototype\<close> (\<open>proto\<close>, a parameter): both look at the object's own
  properties and then at the prototype's.
\<close>

definition read_prop :: "'v props \<Rightarrow> 'v props \<Rightarrow> string \<Rightarrow> 'v jsval" where
  "read_prop obj proto key =
     (case obj key of
        Some v \<Rightarrow> v
      | None \<Rightarrow> (case proto key of Some v \<Rightarrow> v | None \<Rightarrow> Undef))"

definition has_prop :: "'v props \<Rightarrow> 'v props \<Rightarrow> string \<Rightarrow> bool" where
  "has_prop obj proto key = (obj key \<noteq> None \<or> proto key \<noteq> None)"

text \<open>
  The object literal \<^verbatim>\<open>wrappers\<close>. Its \<^verbatim>\<open>indexOf\<close> is whatever \<^verbatim>\<open>SC.$.index\<close>
  holds when the literal is built: a parameter.
\<close>

definition wrappers :: "'v jsval \<Rightarrow> 'v props" where
  "wrappers cq_index =
     [''find'' \<mapsto> Wrapper ''find'',
      ''filter'' \<mapsto> Wrapper ''filter'',
      ''filterProperty'' \<mapsto> Wrapper ''filterProperty'',
      ''indexOf'' \<mapsto> cq_index,
      ''map'' \<mapsto> Wrapper ''map'']"

text \<open>
  The state the loop writes: the prototype \<^verbatim>\<open>fn\<close> and the closure's \<^verbatim>\<open>original\<close>.
\<close>

record 'v cq_state =
  fn :: "'v props"
  original :: "'v props"

text \<open>
  \<^verbatim>\<open>for (var key in enumerable)\<close>: \<^verbatim>\<open>SC.Enumerable\<close> is not in this file, so the
  loop takes what it visits as a list, in order: the key, whether
  \<^verbatim>\<open>enumerable.hasOwnProperty(key)\<close>, and \<^verbatim>\<open>enumerable[key]\<close>.
\<close>

fun install_loop :: "'v props \<Rightarrow> 'v jsval \<Rightarrow> (string \<times> bool \<times> 'v jsval) list
    \<Rightarrow> 'v cq_state \<Rightarrow> 'v cq_state" where
  "install_loop proto cq_index [] s = s"
| "install_loop proto cq_index ((key, own, v) # rest) s =
     (if \<not> own then install_loop proto cq_index rest s
      else if has_prop (wrappers cq_index) proto key then
        install_loop proto cq_index rest
          \<lparr>fn = (fn s)(key \<mapsto> read_prop (wrappers cq_index) proto key),
           original = (original s)(key \<mapsto> read_prop (fn s) proto key)\<rparr>
      else
        install_loop proto cq_index rest
          \<lparr>fn = (fn s)(key \<mapsto> v), original = original s\<rparr>)"

text \<open>The whole function expression: \<^verbatim>\<open>original\<close> starts as \<^verbatim>\<open>{}\<close>.\<close>

definition install_enumerable :: "'v props \<Rightarrow> 'v jsval \<Rightarrow> (string \<times> bool \<times> 'v jsval) list
    \<Rightarrow> 'v props \<Rightarrow> 'v cq_state" where
  "install_enumerable proto cq_index enumerable fn0 =
     install_loop proto cq_index enumerable \<lparr>fn = fn0, original = Map.empty\<rparr>"

section \<open>Property paths (SC.objectForPropertyPath)\<close>

text \<open>
  Modelled from the spec: the Path Tokenizer and Resolver, the Accessor Protocol's
  \<^verbatim>\<open>get\<close> and the Global Root Registry. Of \<^verbatim>\<open>SC.objectForPropertyPath\<close> the
  sources hold one test (tests/core/objectForPropertyPath.js) and not the function.

  A value is absent (\<^verbatim>\<open>undefined\<close>), \<^verbatim>\<open>null\<close>, a primitive, a plain data container
  without the Accessor Protocol, or an entity that implements it, named by its address.
  An entity that was torn down has no entry in the heap.
\<close>

datatype val = Undefined | Null | Num int | Str string | Plain "(string \<times> val) list" | Obj nat

type_synonym entity = "string \<rightharpoonup> val"

type_synonym heap = "nat \<rightharpoonup> entity"

type_synonym registry = "string \<rightharpoonup> val"

datatype root = NoRoot | Root val

datatype failure = UnresolvedRoot | BrokenChain | NotTraversable | StaleReference

text \<open>
  A ResolutionResult: the value with the object that owned the last segment (none when
  the value is the root itself or comes from the registry), or the failure with the index
  of the segment that could not be traversed.
\<close>

datatype resolution = Resolved val "val option" | Failed failure nat

text \<open>
  Modelled from the spec: the Global Root Registry, whose code is not in the sources.
  \<^verbatim>\<open>register\<close> overwrites, \<^verbatim>\<open>lookup\<close> reads one top-level name.
\<close>

definition register :: "string \<Rightarrow> val \<Rightarrow> registry \<Rightarrow> registry" where
  "register name obj reg = reg(name \<mapsto> obj)"

definition lookup :: "registry \<Rightarrow> string \<Rightarrow> val option" where
  "lookup reg name = reg name"

text \<open>
  Modelled from the spec: the Path Tokenizer, whose code is not in the sources. A path
  is the segments between the dots. The empty string is the empty path, of
  zero segments.
\<close>

fun segments :: "string \<Rightarrow> string list" where
  "segments [] = [[]]"
| "segments (c # cs) =
     (if c = CHR ''.'' then [] # segments cs
      else (case segments cs of [] \<Rightarrow> [[c]] | w # ws \<Rightarrow> (c # w) # ws))"

definition tokenize :: "string \<Rightarrow> string list" where
  "tokenize path = (if path = [] then [] else segments path)"

text \<open>
  Modelled from the spec: the Accessor Protocol's \<^verbatim>\<open>get\<close> on a live entity, whose
  code is not in the sources. A missing property is absent.
\<close>

definition get_prop :: "entity \<Rightarrow> string \<Rightarrow> val" where
  "get_prop e name = (case e name of None \<Rightarrow> Undefined | Some v \<Rightarrow> v)"

text \<open>
  Modelled from the spec: the Resolver's walk over the segments after the start, whose
  code is not in the sources: with a segment left, a \<^verbatim>\<open>null\<close> or
  absent owner is a BrokenChain, an owner without the Accessor Protocol is
  NotTraversable, a torn-down entity is a StaleReference; otherwise the property is
  fetched and the walk goes on. With no segment left the value and its owner are the
  result.
\<close>

fun walk :: "heap \<Rightarrow> nat \<Rightarrow> val \<Rightarrow> val option \<Rightarrow> string list \<Rightarrow> resolution" where
  "walk h i v own [] = Resolved v own"
| "walk h i Undefined own (s # ss) = Failed BrokenChain i"
| "walk h i Null own (s # ss) = Failed BrokenChain i"
| "walk h i (Obj r) own (s # ss) =
     (case h r of
        None \<Rightarrow> Failed StaleReference i
      | Some e \<Rightarrow> walk h (Suc i) (get_prop e s) (Some (Obj r)) ss)"
| "walk h i v own (s # ss) = Failed NotTraversable i"

text \<open>
  Modelled from the spec: whether the first segment matches a key on the supplied local
  root (the Resolver is not in the sources).
\<close>

fun has_key :: "heap \<Rightarrow> val \<Rightarrow> string \<Rightarrow> bool" where
  "has_key h (Obj r) s = (case h r of None \<Rightarrow> False | Some e \<Rightarrow> e s \<noteq> None)"
| "has_key h v s = False"

text \<open>
  Modelled from the spec: \<^verbatim>\<open>resolve(path, root)\<close>, whose code is not in the sources.
  Without an explicit root the registry is the only strategy
  for the first segment. With one, a key of the local root takes precedence; the registry
  is used when the first segment is not found on the local root; when it is in neither,
  the walk from the local root decides. The empty path resolves to the root itself; with
  no root at all there is nothing to resolve it to.
\<close>

fun resolve :: "registry \<Rightarrow> heap \<Rightarrow> string list \<Rightarrow> root \<Rightarrow> resolution" where
  "resolve reg h [] NoRoot = Failed UnresolvedRoot 0"
| "resolve reg h [] (Root R) = Resolved R None"
| "resolve reg h (s # ss) NoRoot =
     (case lookup reg s of
        None \<Rightarrow> Failed UnresolvedRoot 0
      | Some v \<Rightarrow> walk h 1 v None ss)"
| "resolve reg h (s # ss) (Root R) =
     (if has_key h R s then walk h 0 R None (s # ss)
      else (case lookup reg s of
              Some v \<Rightarrow> walk h 1 v None ss
            | None \<Rightarrow> walk h 0 R None (s # ss)))"

text \<open>
  Modelled from the spec: what the caller of a look-up gets (\<^verbatim>\<open>SC.objectForPropertyPath\<close>
  is not in the sources): BrokenChain and NotTraversable collapse to the absent
  value; UnresolvedRoot and StaleReference are reported.
\<close>

fun terminal :: "resolution \<Rightarrow> failure + val" where
  "terminal (Resolved v own) = Inr v"
| "terminal (Failed BrokenChain i) = Inr Undefined"
| "terminal (Failed NotTraversable i) = Inr Undefined"
| "terminal (Failed f i) = Inl f"

definition objectForPropertyPath :: "registry \<Rightarrow> heap \<Rightarrow> string \<Rightarrow> root \<Rightarrow> failure + val" where
  "objectForPropertyPath reg h path root = terminal (resolve reg h (tokenize path) root)"

section \<open>Properties of the CoreQuery plugins\<close>

























lemma setClass_each_raises:
  "nodeType e = 1 \<Longrightarrow> className e = NotAString \<Longrightarrow>
   setClass_each arg shouldAdd e = Inl TypeError"
  by (simp add: setClass_each_def)















text \<open>
  A string with white space in it is not a single class name: the pieces of the class
  list never hold it, so \<^verbatim>\<open>setClass("a b", YES)\<close> appends again on the second call.
\<close>

lemma setClass_two_names_appended_twice:
  "setClass (ClassName ''a b'') True [Some 0]
      (\<lambda>_. \<lparr>nodeType = 1, className = ClassText '''', type_prop = None\<rparr>)
     = ((\<lambda>_. \<lparr>nodeType = 1, className = ClassText '''', type_prop = None\<rparr>)
          (0 := \<lparr>nodeType = 1, className = ClassText '' a b'', type_prop = None\<rparr>), None)
   \<and> setClass (ClassName ''a b'') True [Some 0]
      ((\<lambda>_. \<lparr>nodeType = 1, className = ClassText '''', type_prop = None\<rparr>)
          (0 := \<lparr>nodeType = 1, className = ClassText '' a b'', type_prop = None\<rparr>))
     = ((\<lambda>_. \<lparr>nodeType = 1, className = ClassText '''', type_prop = None\<rparr>)
          (0 := \<lparr>nodeType = 1, className = ClassText '' a b a b'', type_prop = None\<rparr>), None)"
  by (simp add: setClass_def setClass_each_def fixupClass_def split_ws.simps [of "[]"]
      split_ws.simps [of "_ # _"] Let_def is_space_def not_space_def)

text \<open>
  An element node whose \<^verbatim>\<open>className\<close> is not a string makes the method raise, with
  the nodes before it in the set already written.
\<close>

lemma setClass_raises_on_object_className:
  "setClass (ClassName ''on'') True [Some 0, Some 1]
      (\<lambda>n. \<lparr>nodeType = 1, className = (if n = 1 then NotAString else ClassText ''''),
            type_prop = None\<rparr>)
     = ((\<lambda>n. \<lparr>nodeType = 1, className = (if n = 1 then NotAString else ClassText ''''),
            type_prop = None\<rparr>)
          (0 := \<lparr>nodeType = 1, className = ClassText '' on'', type_prop = None\<rparr>),
        Some TypeError)"
  by (simp add: setClass_def setClass_each_def fixupClass_def split_ws.simps [of "[]"] Let_def)

lemma every_True: "every f xs = Inr True \<longleftrightarrow> (\<forall>x\<in>set xs. f x = Inr True)"
  by (induction xs) (auto split: sum.splits)

text \<open>
  C9. On a matched set of elements, \<^verbatim>\<open>isVisible()\<close> returns YES exactly when every
  element of the set is not of type hidden, has a computed display other than none and a
  computed visibility other than hidden; on the empty set it returns YES. On any matched
  set, it returns YES exactly when every entry is an element that passes these three
  tests.
\<close>

theorem isVisible_all_elements:
  "isVisible css doc [] = Inr True
   \<and> (None \<notin> set this \<longrightarrow>
        isVisible css doc this =
          Inr (\<forall>elem. Some elem \<in> set this \<longrightarrow>
                 type_prop (doc elem) \<noteq> Some ''hidden''
                 \<and> css elem ''display'' \<noteq> Some ''none''
                 \<and> css elem ''visibility'' \<noteq> Some ''hidden''))
   \<and> (isVisible css doc this = Inr True \<longleftrightarrow>
        (\<forall>entry\<in>set this. \<exists>elem. entry = Some elem
             \<and> type_prop (doc elem) \<noteq> Some ''hidden''
             \<and> css elem ''display'' \<noteq> Some ''none''
             \<and> css elem ''visibility'' \<noteq> Some ''hidden''))"
proof (intro conjI impI)
  show "isVisible css doc [] = Inr True"
    by (simp add: isVisible_def)
next
  assume "None \<notin> set this"
  then show "isVisible css doc this =
      Inr (\<forall>elem. Some elem \<in> set this \<longrightarrow>
             type_prop (doc elem) \<noteq> Some ''hidden''
             \<and> css elem ''display'' \<noteq> Some ''none''
             \<and> css elem ''visibility'' \<noteq> Some ''hidden'')"
  proof (induction this)
    case Nil
    then show ?case by (simp add: isVisible_def)
  next
    case (Cons entry this)
    then obtain elem where "entry = Some elem"
      by (cases entry) auto
    with Cons show ?case
      by (auto simp: isVisible_def isVisible_elem_def)
  qed
next
  show "isVisible css doc this = Inr True \<longleftrightarrow>
      (\<forall>entry\<in>set this. \<exists>elem. entry = Some elem
           \<and> type_prop (doc elem) \<noteq> Some ''hidden''
           \<and> css elem ''display'' \<noteq> Some ''none''
           \<and> css elem ''visibility'' \<noteq> Some ''hidden'')"
  proof -
    have "(case entry of None \<Rightarrow> Inl TypeError
            | Some elem \<Rightarrow> Inr (isVisible_elem css doc elem)) = Inr True \<longleftrightarrow>
        (\<exists>elem. entry = Some elem
           \<and> type_prop (doc elem) \<noteq> Some ''hidden''
           \<and> css elem ''display'' \<noteq> Some ''none''
           \<and> css elem ''visibility'' \<noteq> Some ''hidden'')" for entry
      by (cases entry) (auto simp: isVisible_elem_def)
    then show ?thesis
      by (simp add: isVisible_def every_True)
  qed
qed

theorem isVisible_all_elements_witness:
  "isVisible (\<lambda>n p. if n = 1 \<and> p = ''display'' then Some ''none'' else Some ''block'')
     (\<lambda>_. \<lparr>nodeType = 1, className = ClassText ''x'', type_prop = None\<rparr>) [Some 0, Some 2] = Inr True
   \<and> isVisible (\<lambda>n p. if n = 1 \<and> p = ''display'' then Some ''none'' else Some ''block'')
     (\<lambda>_. \<lparr>nodeType = 1, className = ClassText ''x'', type_prop = None\<rparr>) [Some 0, Some 1] = Inr False"
proof -
  let ?css = "\<lambda>(n::nat) p. if n = 1 \<and> p = ''display'' then Some ''none'' else Some ''block''"
  let ?doc = "\<lambda>_::nat. \<lparr>nodeType = 1, className = ClassText ''x'', type_prop = None\<rparr>"
  have "None \<notin> set [Some (0::nat), Some 2]" and "None \<notin> set [Some (0::nat), Some 1]"
    by simp_all
  then show ?thesis
    using isVisible_all_elements [of ?css ?doc "[Some 0, Some 2]"]
      isVisible_all_elements [of ?css ?doc "[Some 0, Some 1]"]
    by auto
qed

lemma install_loop_other:
  "\<forall>v. (key, True, v) \<notin> set enumerable \<Longrightarrow>
   fn (install_loop proto cq_index enumerable s) key = fn s key"
  by (induction proto cq_index enumerable s rule: install_loop.induct) auto

lemma install_loop_original_other:
  "\<forall>v. (key, True, v) \<notin> set enumerable \<Longrightarrow>
   original (install_loop proto cq_index enumerable s) key = original s key"
  by (induction proto cq_index enumerable s rule: install_loop.induct) auto

lemma distinct_keys_rest:
  "k \<notin> fst ` set rest \<Longrightarrow> \<forall>v. (k, True, v) \<notin> set rest"
  by force

lemma install_loop_own:
  "distinct (map fst enumerable) \<Longrightarrow> (key, True, v) \<in> set enumerable \<Longrightarrow>
   fn (install_loop proto cq_index enumerable s) key =
     Some (if has_prop (wrappers cq_index) proto key
           then read_prop (wrappers cq_index) proto key else v)"
proof (induction enumerable arbitrary: s)
  case Nil
  then show ?case by simp
next
  case (Cons x rest)
  obtain k own w where x: "x = (k, own, w)"
    by (cases x) auto
  from Cons.prems(1) have dist: "distinct (map fst rest)" and fresh: "k \<notin> fst ` set rest"
    by (simp_all add: x)
  show ?case
  proof (cases "(key, True, v) \<in> set rest")
    case True
    have "\<And>s'. fn (install_loop proto cq_index rest s') key =
        Some (if has_prop (wrappers cq_index) proto key
              then read_prop (wrappers cq_index) proto key else v)"
      using dist True by (rule Cons.IH)
    then show ?thesis
      by (simp add: x)
  next
    case False
    with Cons.prems(2) have here: "k = key" "own" "w = v"
      by (simp_all add: x)
    from fresh have "\<forall>v. (key, True, v) \<notin> set rest"
      unfolding here(1) by (rule distinct_keys_rest)
    then have "\<And>s'. fn (install_loop proto cq_index rest s') key = fn s' key"
      by (rule install_loop_other)
    then show ?thesis
      by (simp add: x here)
  qed
qed

lemma install_loop_original:
  "distinct (map fst enumerable) \<Longrightarrow> (key, True, v) \<in> set enumerable \<Longrightarrow>
   has_prop (wrappers cq_index) proto key \<Longrightarrow>
   original (install_loop proto cq_index enumerable s) key = Some (read_prop (fn s) proto key)"
proof (induction enumerable arbitrary: s)
  case Nil
  then show ?case by simp
next
  case (Cons x rest)
  obtain k own w where x: "x = (k, own, w)"
    by (cases x) auto
  from Cons.prems(1) have dist: "distinct (map fst rest)" and fresh: "k \<notin> fst ` set rest"
    by (simp_all add: x)
  show ?case
  proof (cases "(key, True, v) \<in> set rest")
    case True
    with fresh have ne: "k \<noteq> key"
      by force
    have "\<And>s'. original (install_loop proto cq_index rest s') key =
        Some (read_prop (fn s') proto key)"
      using dist True Cons.prems(3) by (rule Cons.IH)
    then show ?thesis
      using ne by (simp add: x read_prop_def)
  next
    case False
    with Cons.prems(2) have here: "k = key" "own" "w = v"
      by (simp_all add: x)
    from fresh have "\<forall>v. (key, True, v) \<notin> set rest"
      unfolding here(1) by (rule distinct_keys_rest)
    then have "\<And>s'. original (install_loop proto cq_index rest s') key = original s' key"
      by (rule install_loop_original_other)
    then show ?thesis
      using Cons.prems(3) by (simp add: x here)
  qed
qed

lemma install_loop_keeps:
  "fn s key \<noteq> None \<Longrightarrow> fn (install_loop proto cq_index enumerable s) key \<noteq> None"
  by (induction proto cq_index enumerable s rule: install_loop.induct) auto

lemma install_loop_dom: "dom (fn s) \<subseteq> dom (fn (install_loop proto cq_index enumerable s))"
  using install_loop_keeps [of s _ proto cq_index enumerable] by (auto simp: dom_def)

text \<open>
  C8, as the code has it. The installation assigns into the prototype object
  \<^verbatim>\<open>SC.$.fn\<close> itself: for every own key of \<^verbatim>\<open>SC.Enumerable\<close> the prototype's property
  becomes the wrapper (when the key is in \<^verbatim>\<open>wrappers\<close>, the property's former value
  being kept in \<^verbatim>\<open>original\<close>) or \<^verbatim>\<open>SC.Enumerable\<close>'s value; a property under any
  other key is left as it was, and none is removed.
\<close>

theorem install_enumerable_writes_prototype:
  assumes "distinct (map fst enumerable)"
  shows "(\<forall>key v. (key, True, v) \<in> set enumerable \<longrightarrow>
            fn (install_enumerable proto cq_index enumerable fn0) key =
              Some (if has_prop (wrappers cq_index) proto key
                    then read_prop (wrappers cq_index) proto key else v)
            \<and> (has_prop (wrappers cq_index) proto key \<longrightarrow>
                 original (install_enumerable proto cq_index enumerable fn0) key =
                   Some (read_prop fn0 proto key)))
    \<and> (\<forall>key. (\<forall>v. (key, True, v) \<notin> set enumerable) \<longrightarrow>
            fn (install_enumerable proto cq_index enumerable fn0) key = fn0 key)
    \<and> dom fn0 \<subseteq> dom (fn (install_enumerable proto cq_index enumerable fn0))"
proof (intro conjI allI impI)
  fix key v
  assume "(key, True, v) \<in> set enumerable"
  with assms show "fn (install_enumerable proto cq_index enumerable fn0) key =
      Some (if has_prop (wrappers cq_index) proto key
            then read_prop (wrappers cq_index) proto key else v)"
    unfolding install_enumerable_def by (rule install_loop_own)
next
  fix key v
  assume "(key, True, v) \<in> set enumerable" and "has_prop (wrappers cq_index) proto key"
  with assms have "original (install_loop proto cq_index enumerable
        \<lparr>fn = fn0, original = Map.empty\<rparr>) key =
      Some (read_prop (fn \<lparr>fn = fn0, original = Map.empty\<rparr>) proto key)"
    by (rule install_loop_original)
  then show "original (install_enumerable proto cq_index enumerable fn0) key =
      Some (read_prop fn0 proto key)"
    by (simp add: install_enumerable_def)
next
  fix key
  assume "\<forall>v. (key, True, v) \<notin> set enumerable"
  then have "fn (install_loop proto cq_index enumerable \<lparr>fn = fn0, original = Map.empty\<rparr>) key
      = fn \<lparr>fn = fn0, original = Map.empty\<rparr> key"
    by (rule install_loop_other)
  then show "fn (install_enumerable proto cq_index enumerable fn0) key = fn0 key"
    by (simp add: install_enumerable_def)
next
  show "dom fn0 \<subseteq> dom (fn (install_enumerable proto cq_index enumerable fn0))"
    using install_loop_dom [of "\<lparr>fn = fn0, original = Map.empty\<rparr>" proto cq_index enumerable]
    by (simp add: install_enumerable_def)
qed

theorem install_enumerable_writes_prototype_witness:
  "fn (install_enumerable Map.empty (Ext ''jQuery.index'')
         [(''find'', True, Ext ''SC.Enumerable.find''),
          (''forEach'', True, Ext ''SC.Enumerable.forEach''),
          (''inherited'', False, Ext ''Object.prototype.inherited'')]
         [''find'' \<mapsto> Ext ''jQuery.fn.find'', ''css'' \<mapsto> Ext ''jQuery.fn.css'']) ''css''
     = Some (Ext ''jQuery.fn.css'')
   \<and> fn (install_enumerable Map.empty (Ext ''jQuery.index'')
         [(''find'', True, Ext ''SC.Enumerable.find''),
          (''forEach'', True, Ext ''SC.Enumerable.forEach''),
          (''inherited'', False, Ext ''Object.prototype.inherited'')]
         [''find'' \<mapsto> Ext ''jQuery.fn.find'', ''css'' \<mapsto> Ext ''jQuery.fn.css'']) ''inherited''
     = None"
proof -
  have "distinct (map fst [(''find'', True, Ext ''SC.Enumerable.find''),
          (''forEach'', True, Ext ''SC.Enumerable.forEach''),
          (''inherited'', False, Ext ''Object.prototype.inherited'')])"
    by simp
  note t = install_enumerable_writes_prototype [OF this, of Map.empty "Ext ''jQuery.index''"
      "[''find'' \<mapsto> Ext ''jQuery.fn.find'', ''css'' \<mapsto> Ext ''jQuery.fn.css'']"]
  from t have other: "\<And>key. \<forall>v. (key, True, v) \<notin> set [(''find'', True, Ext ''SC.Enumerable.find''),
          (''forEach'', True, Ext ''SC.Enumerable.forEach''),
          (''inherited'', False, Ext ''Object.prototype.inherited'')] \<Longrightarrow>
      fn (install_enumerable Map.empty (Ext ''jQuery.index'')
         [(''find'', True, Ext ''SC.Enumerable.find''),
          (''forEach'', True, Ext ''SC.Enumerable.forEach''),
          (''inherited'', False, Ext ''Object.prototype.inherited'')]
         [''find'' \<mapsto> Ext ''jQuery.fn.find'', ''css'' \<mapsto> Ext ''jQuery.fn.css'']) key
       = [''find'' \<mapsto> Ext ''jQuery.fn.find'', ''css'' \<mapsto> Ext ''jQuery.fn.css''] key"
    by blast
  show ?thesis
    using other [of "''css''"] other [of "''inherited''"] by simp
qed

text \<open>
  C8 as it is written fails: with \<^verbatim>\<open>find\<close> and \<^verbatim>\<open>forEach\<close> among the own keys
  of \<^verbatim>\<open>SC.Enumerable\<close>, the installation replaces the prototype's \<^verbatim>\<open>find\<close> by the
  wrapper and adds \<^verbatim>\<open>forEach\<close> to the prototype.
\<close>

theorem install_enumerable_changes_prototype:
  "fn (install_enumerable Map.empty (Ext ''jQuery.index'')
         [(''find'', True, Ext ''SC.Enumerable.find''),
          (''forEach'', True, Ext ''SC.Enumerable.forEach'')]
         [''find'' \<mapsto> Ext ''jQuery.fn.find'']) \<noteq> [''find'' \<mapsto> Ext ''jQuery.fn.find'']
   \<and> fn (install_enumerable Map.empty (Ext ''jQuery.index'')
         [(''find'', True, Ext ''SC.Enumerable.find''),
          (''forEach'', True, Ext ''SC.Enumerable.forEach'')]
         [''find'' \<mapsto> Ext ''jQuery.fn.find'']) ''find'' = Some (Wrapper ''find'')
   \<and> fn (install_enumerable Map.empty (Ext ''jQuery.index'')
         [(''find'', True, Ext ''SC.Enumerable.find''),
          (''forEach'', True, Ext ''SC.Enumerable.forEach'')]
         [''find'' \<mapsto> Ext ''jQuery.fn.find'']) ''forEach'' = Some (Ext ''SC.Enumerable.forEach'')"
proof -
  let ?s = "install_enumerable Map.empty (Ext ''jQuery.index'')
         [(''find'', True, Ext ''SC.Enumerable.find''),
          (''forEach'', True, Ext ''SC.Enumerable.forEach'')]
         [''find'' \<mapsto> Ext ''jQuery.fn.find'']"
  have a: "fn ?s ''find'' = Some (Wrapper ''find'')"
    by (simp add: install_enumerable_def has_prop_def read_prop_def wrappers_def)
  have b: "fn ?s ''forEach'' = Some (Ext ''SC.Enumerable.forEach'')"
    by (simp add: install_enumerable_def has_prop_def read_prop_def wrappers_def)
  from a have "fn ?s \<noteq> [''find'' \<mapsto> Ext ''jQuery.fn.find'']"
    by (auto simp: fun_eq_iff)
  with a b show ?thesis
    by simp
qed

section \<open>Properties of the resolver\<close>

lemma segments_no_dot: "CHR ''.'' \<notin> set s \<Longrightarrow> segments s = [s]"
  by (induction s) auto

lemma tokenize_single: "path \<noteq> [] \<Longrightarrow> CHR ''.'' \<notin> set path \<Longrightarrow> tokenize path = [path]"
  by (simp add: tokenize_def segments_no_dot)

lemma walk_append:
  "walk h i v own (xs @ ys) =
     (case walk h i v own xs of
        Resolved v' own' \<Rightarrow> walk h (i + length xs) v' own' ys
      | Failed f j \<Rightarrow> Failed f j)"
  by (induction h i v own xs rule: walk.induct) (auto split: option.splits resolution.splits)

lemma resolve_append:
  assumes "pre \<noteq> []"
  shows "resolve reg h (pre @ suf) root =
     (case resolve reg h pre root of
        Resolved v own \<Rightarrow> walk h (length pre) v own suf
      | Failed f j \<Rightarrow> Failed f j)"
proof -
  from assms obtain s ss where pre: "pre = s # ss"
    by (cases pre) auto
  have w0: "\<And>R. walk h 0 R None (s # ss @ suf) =
      (case walk h 0 R None (s # ss) of
         Resolved v own \<Rightarrow> walk h (length (s # ss)) v own suf
       | Failed f j \<Rightarrow> Failed f j)"
    using walk_append [of h 0 _ None "s # ss" suf] by (simp split: resolution.splits)
  have w1: "\<And>v. walk h (Suc 0) v None (ss @ suf) =
      (case walk h (Suc 0) v None ss of
         Resolved v' own \<Rightarrow> walk h (length (s # ss)) v' own suf
       | Failed f j \<Rightarrow> Failed f j)"
    using walk_append [of h "Suc 0" _ None ss suf] by (simp split: resolution.splits)
  show ?thesis
  proof (cases root)
    case NoRoot
    then show ?thesis
      unfolding pre by (simp add: w1 split: option.splits)
  next
    case (Root R)
    then show ?thesis
      unfolding pre by (simp add: w0 w1 del: walk.simps split: option.splits)
  qed
qed

lemma walk_dead_end:
  "suf \<noteq> [] \<Longrightarrow> walk h i v own suf =
     (case v of
        Undefined \<Rightarrow> Failed BrokenChain i
      | Null \<Rightarrow> Failed BrokenChain i
      | Obj r \<Rightarrow> walk h i (Obj r) own suf
      | _ \<Rightarrow> Failed NotTraversable i)"
  by (cases suf; cases v) auto

text \<open>
  C3. When a proper, non-empty prefix of the path resolves to \<^verbatim>\<open>null\<close> or to the
  absent value and segments remain, the resolution of the whole path is the BrokenChain
  failure at that segment and the look-up returns the absent value; when the prefix
  resolves to a primitive or a plain container, it is NotTraversable and the look-up
  again returns the absent value. Neither failure ever reaches the caller as an error.
\<close>

theorem broken_chain_is_absent:
  assumes "pre \<noteq> []" and "suf \<noteq> []" and "resolve reg h pre root = Resolved v own"
  shows "(v = Null \<or> v = Undefined \<longrightarrow>
            resolve reg h (pre @ suf) root = Failed BrokenChain (length pre)
            \<and> terminal (resolve reg h (pre @ suf) root) = Inr Undefined)
    \<and> ((\<exists>n. v = Num n) \<or> (\<exists>s. v = Str s) \<or> (\<exists>ps. v = Plain ps) \<longrightarrow>
            resolve reg h (pre @ suf) root = Failed NotTraversable (length pre)
            \<and> terminal (resolve reg h (pre @ suf) root) = Inr Undefined)
    \<and> (\<forall>p r i. resolve reg h p r = Failed BrokenChain i
              \<or> resolve reg h p r = Failed NotTraversable i
            \<longrightarrow> terminal (resolve reg h p r) = Inr Undefined)"
proof -
  have "resolve reg h (pre @ suf) root = walk h (length pre) v own suf"
    using assms(1,3) by (simp add: resolve_append)
  then show ?thesis
    using walk_dead_end [OF assms(2), of h "length pre" v own] by auto
qed

theorem broken_chain_is_absent_witness:
  "resolve [''App'' \<mapsto> Obj 0] [0 \<mapsto> [''controller'' \<mapsto> Null]]
      ([''App'', ''controller''] @ [''value'']) NoRoot = Failed BrokenChain 2
   \<and> objectForPropertyPath [''App'' \<mapsto> Obj 0] [0 \<mapsto> [''controller'' \<mapsto> Null]]
      ''App.controller.value'' NoRoot = Inr Undefined"
proof -
  let ?reg = "[''App'' \<mapsto> Obj 0]"
  let ?h = "[0 \<mapsto> [''controller'' \<mapsto> Null]]"
  have pre: "resolve ?reg ?h [''App'', ''controller''] NoRoot = Resolved Null (Some (Obj 0))"
    by (simp add: lookup_def get_prop_def)
  have tok: "tokenize ''App.controller.value'' = [''App'', ''controller''] @ [''value'']"
    by (simp add: tokenize_def)
  have "[''App'', ''controller''] \<noteq> []" and "[''value''] \<noteq> []"
    by simp_all
  from broken_chain_is_absent [OF this pre]
  show ?thesis
    by (simp add: objectForPropertyPath_def tok)
qed

lemma segments_first:
  "segments s = takeWhile (\<lambda>c. c \<noteq> CHR ''.'') s #
     (case dropWhile (\<lambda>c. c \<noteq> CHR ''.'') s of [] \<Rightarrow> [] | d # r \<Rightarrow> segments r)"
proof (induction s)
  case Nil
  then show ?case by simp
next
  case (Cons c cs)
  show ?case
  proof (cases "c = CHR ''.''")
    case True
    then show ?thesis by simp
  next
    case False
    define rest where "rest = (case dropWhile (\<lambda>c. c \<noteq> CHR ''.'') cs of
        [] \<Rightarrow> [] | d # r \<Rightarrow> segments r)"
    have "segments cs = takeWhile (\<lambda>c. c \<noteq> CHR ''.'') cs # rest"
      unfolding rest_def by (rule Cons.IH)
    then have "segments (c # cs) = (c # takeWhile (\<lambda>c. c \<noteq> CHR ''.'') cs) # rest"
      using False by simp
    then show ?thesis
      using False by (simp add: rest_def)
  qed
qed

lemma tokenize_first:
  "path \<noteq> [] \<Longrightarrow>
   tokenize path = takeWhile (\<lambda>c. c \<noteq> CHR ''.'') path # tl (tokenize path)"
  using segments_first [of path] by (simp add: tokenize_def)

text \<open>
  C2. Without an explicit root, a path whose first segment (the text before its first
  dot) is a name of the registry resolves to what the walk over the remaining segments
  gives from the registered object, which is the registered object itself for a path of
  one segment; when the first segment is not in the registry the resolution fails with
  UnresolvedRoot, and the failure is reported.
\<close>

theorem registry_first_segment:
  assumes "path \<noteq> []"
  shows "(lookup reg (takeWhile (\<lambda>c. c \<noteq> CHR ''.'') path) = Some obj \<longrightarrow>
            resolve reg h (tokenize path) NoRoot = walk h 1 obj None (tl (tokenize path))
            \<and> (CHR ''.'' \<notin> set path \<longrightarrow>
                 resolve reg h (tokenize path) NoRoot = Resolved obj None
                 \<and> objectForPropertyPath reg h path NoRoot = Inr obj))
    \<and> (lookup reg (takeWhile (\<lambda>c. c \<noteq> CHR ''.'') path) = None \<longrightarrow>
            resolve reg h (tokenize path) NoRoot = Failed UnresolvedRoot 0
            \<and> objectForPropertyPath reg h path NoRoot = Inl UnresolvedRoot)"
proof -
  let ?name = "takeWhile (\<lambda>c. c \<noteq> CHR ''.'') path"
  have tok: "tokenize path = ?name # tl (tokenize path)"
    using assms by (rule tokenize_first)
  have found: "resolve reg h (tokenize path) NoRoot = walk h 1 obj None (tl (tokenize path))"
    if "lookup reg ?name = Some obj"
    by (subst tok) (simp add: that)
  have missing: "resolve reg h (tokenize path) NoRoot = Failed UnresolvedRoot 0"
    if "lookup reg ?name = None"
    by (subst tok) (simp add: that)
  have single: "tl (tokenize path) = []" if "CHR ''.'' \<notin> set path"
    using assms that by (simp add: tokenize_single)
  show ?thesis
    using found missing single by (auto simp: objectForPropertyPath_def)
qed

theorem registry_first_segment_witness:
  "objectForPropertyPath (register ''myGlobal'' (Plain [(''test'', Str ''this '')]) Map.empty)
      Map.empty ''myGlobal'' NoRoot = Inr (Plain [(''test'', Str ''this '')])
   \<and> objectForPropertyPath Map.empty Map.empty ''myGlobal'' NoRoot = Inl UnresolvedRoot
   \<and> objectForPropertyPath [''App'' \<mapsto> Obj 0]
        [0 \<mapsto> [''controller'' \<mapsto> Obj 1], 1 \<mapsto> [''value'' \<mapsto> Num 1]]
        ''App.controller.value'' NoRoot = Inr (Num 1)"
proof -
  have ne: "''myGlobal'' \<noteq> []" and ne': "''App.controller.value'' \<noteq> []"
    by simp_all
  have a: "objectForPropertyPath (register ''myGlobal'' (Plain [(''test'', Str ''this '')]) Map.empty)
      Map.empty ''myGlobal'' NoRoot = Inr (Plain [(''test'', Str ''this '')])"
    using registry_first_segment [OF ne,
        of "register ''myGlobal'' (Plain [(''test'', Str ''this '')]) Map.empty"
           "Plain [(''test'', Str ''this '')]" Map.empty]
    by (simp add: lookup_def register_def)
  have b: "objectForPropertyPath Map.empty Map.empty ''myGlobal'' NoRoot = Inl UnresolvedRoot"
    using registry_first_segment [OF ne, of Map.empty undefined Map.empty]
    by (simp add: lookup_def)
  have "resolve [''App'' \<mapsto> Obj 0]
        [0 \<mapsto> [''controller'' \<mapsto> Obj 1], 1 \<mapsto> [''value'' \<mapsto> Num 1]]
        (tokenize ''App.controller.value'') NoRoot
      = walk [0 \<mapsto> [''controller'' \<mapsto> Obj 1], 1 \<mapsto> [''value'' \<mapsto> Num 1]] 1 (Obj 0) None
          (tl (tokenize ''App.controller.value''))"
    using registry_first_segment [OF ne', of "[''App'' \<mapsto> Obj 0]" "Obj 0"
        "[0 \<mapsto> [''controller'' \<mapsto> Obj 1], 1 \<mapsto> [''value'' \<mapsto> Num 1]]"]
    by (simp add: lookup_def)
  then have c: "objectForPropertyPath [''App'' \<mapsto> Obj 0]
        [0 \<mapsto> [''controller'' \<mapsto> Obj 1], 1 \<mapsto> [''value'' \<mapsto> Num 1]]
        ''App.controller.value'' NoRoot = Inr (Num 1)"
    by (simp add: objectForPropertyPath_def tokenize_def get_prop_def)
  from a b c show ?thesis
    by (intro conjI)
qed

end
